theory Spec2Isabelle
  imports Main "HOL-Library.Multiset"
begin

section \<open>Characters and character classes\<close>

text \<open>
  The extractor of \<^verbatim>\<open>test.py\<close> is a composition of regular-expression searches over
  the biography text.  A text is a \<^typ>\<open>string\<close>, read as a sequence of code points
  0 to 255.  The classes below are the ones Python's \<^verbatim>\<open>re\<close> and \<^verbatim>\<open>str\<close> use on
  that range: \<^verbatim>\<open>\s\<close> and \<^verbatim>\<open>str.strip()\<close> share one whitespace
  predicate, \<^verbatim>\<open>\d\<close> is the decimal digits, \<^verbatim>\<open>\w\<close> the alphanumerics and the
  underscore.  Every literal and every set of the program's patterns is ASCII, so case
  folding is the ASCII one.
\<close>

definition code :: "char \<Rightarrow> nat" where
  "code c = of_char c"

definition in_range :: "nat \<Rightarrow> nat \<Rightarrow> char \<Rightarrow> bool" where
  "in_range lo hi c = (lo \<le> code c \<and> code c \<le> hi)"

fun set_bit5 :: "bool \<Rightarrow> char \<Rightarrow> char" where
  "set_bit5 b (Char b0 b1 b2 b3 b4 b5 b6 b7) = Char b0 b1 b2 b3 b4 b b6 b7"

definition lower :: "char \<Rightarrow> char" where
  "lower c = (if in_range 65 90 c then set_bit5 True c else c)"

definition upper :: "char \<Rightarrow> char" where
  "upper c = (if in_range 97 122 c then set_bit5 False c else c)"

definition is_space :: "char \<Rightarrow> bool" where
  "is_space c = (in_range 9 13 c \<or> in_range 28 32 c \<or> code c = 133 \<or> code c = 160)"

definition is_digit :: "char \<Rightarrow> bool" where
  "is_digit c = in_range 48 57 c"

definition is_word :: "char \<Rightarrow> bool" where
  "is_word c = (in_range 48 57 c \<or> in_range 65 90 c \<or> code c = 95 \<or> in_range 97 122 c
     \<or> code c = 170 \<or> in_range 178 179 c \<or> code c = 181 \<or> in_range 185 186 c
     \<or> in_range 188 190 c \<or> in_range 192 214 c \<or> in_range 216 246 c
     \<or> in_range 248 255 c)"

text \<open>Members of a bracketed set: a character, a range, \<^verbatim>\<open>\d\<close>, \<^verbatim>\<open>\s\<close>.\<close>

datatype cset = C char | Rg char char | D | S

datatype atom = Lit char | Dot | In "cset list" | NotIn "cset list"

fun cset_ok :: "bool \<Rightarrow> cset \<Rightarrow> char \<Rightarrow> bool" where
  "cset_ok ci (C c) x = (if ci then lower x = lower c else x = c)"
| "cset_ok ci (Rg a b) x =
     (if ci then in_range (code a) (code b) (lower x) \<or> in_range (code a) (code b) (upper x)
      else in_range (code a) (code b) x)"
| "cset_ok ci D x = is_digit x"
| "cset_ok ci S x = is_space x"

fun atom_ok :: "bool \<Rightarrow> atom \<Rightarrow> char \<Rightarrow> bool" where
  "atom_ok ci (Lit c) x = (if ci then lower x = lower c else x = c)"
| "atom_ok ci Dot x = (x \<noteq> CHR 0x0A)"
| "atom_ok ci (In cs) x = list_ex (\<lambda>m. cset_ok ci m x) cs"
| "atom_ok ci (NotIn cs) x = (\<not> list_ex (\<lambda>m. cset_ok ci m x) cs)"

section \<open>Regular expressions and the backtracking matcher\<close>

text \<open>
  The patterns of the program quantify single characters and sets only
  (\<^verbatim>\<open>\s*\<close>, \<^verbatim>\<open>.*?\<close>, \<^verbatim>\<open>\d{4}\<close>, \<^verbatim>\<open>[^\n]+\<close>), apart from two optional groups, which
  are alternatives with the empty pattern.  \<open>Rep a lo hi greedy\<close> repeats the atom
  \<open>a\<close> at least \<open>lo\<close> and at most \<open>hi\<close> times (\<open>None\<close>: unbounded).
  \<open>Bol\<close> and \<open>Eol\<close> are \<^verbatim>\<open>^\<close> and \<^verbatim>\<open>$\<close> under \<^verbatim>\<open>re.M\<close>; \<open>WordB\<close> is \<^verbatim>\<open>\b\<close>;
  \<open>NotAhead\<close> is \<^verbatim>\<open>(?!...)\<close>.
\<close>

datatype re =
    Atom atom
  | Eps
  | Cat re re
  | Alt re re
  | Rep atom nat "nat option" bool
  | Group nat re
  | Bol
  | Eol
  | WordB
  | NotAhead re

fun str :: "string \<Rightarrow> re" where
  "str [] = Eps"
| "str [c] = Atom (Lit c)"
| "str (c # cs) = Cat (Atom (Lit c)) (str cs)"

fun cats :: "re list \<Rightarrow> re" where
  "cats [] = Eps"
| "cats [r] = r"
| "cats (r # rs) = Cat r (cats rs)"

fun alts :: "re list \<Rightarrow> re" where
  "alts [] = Eps"
| "alts [r] = r"
| "alts (r # rs) = Alt r (alts rs)"

definition star :: "atom \<Rightarrow> re" where "star a = Rep a 0 None True"
definition plus :: "atom \<Rightarrow> re" where "plus a = Rep a 1 None True"
definition lazy_star :: "atom \<Rightarrow> re" where "lazy_star a = Rep a 0 None False"
definition lazy_plus :: "atom \<Rightarrow> re" where "lazy_plus a = Rep a 1 None False"
definition opt :: "re \<Rightarrow> re" where "opt r = Alt r Eps"
definition lazy_opt :: "re \<Rightarrow> re" where "lazy_opt r = Alt Eps r"

text \<open>
  The matcher works on a stack of what is still to be matched, so that the alternatives
  are tried in Python's order and the first success is the answer.  \<open>Close n s0\<close>
  ends group \<open>n\<close>, opened when the rest of the text was \<open>s0\<close>; \<open>NonEmpty s0\<close>
  refuses a match that consumed nothing since \<open>s0\<close>.  The state is the character
  before the position (\<open>None\<close> at the start of the text), the rest of the text and the
  groups captured so far; a success returns the rest after the match and the groups.
\<close>

datatype instr = R re | Close nat string | NonEmpty string

type_synonym caps = "nat \<rightharpoonup> string"

fun rsz :: "re \<Rightarrow> nat" where
  "rsz (Cat a b) = Suc (rsz a + rsz b)"
| "rsz (Alt a b) = Suc (rsz a + rsz b)"
| "rsz (Group n r) = Suc (Suc (rsz r))"
| "rsz (NotAhead r) = Suc (rsz r)"
| "rsz r = 1"

fun isz :: "instr \<Rightarrow> nat" where
  "isz (R r) = rsz r"
| "isz i = 1"

definition dec :: "nat option \<Rightarrow> nat option" where
  "dec hi = map_option (\<lambda>h. h - 1) hi"

definition word_before :: "char option \<Rightarrow> bool" where
  "word_before p = (case p of None \<Rightarrow> False | Some c \<Rightarrow> is_word c)"

definition word_after :: "string \<Rightarrow> bool" where
  "word_after s = (case s of [] \<Rightarrow> False | c # cs \<Rightarrow> is_word c)"

definition at_bol :: "char option \<Rightarrow> bool" where
  "at_bol p = (p = None \<or> p = Some (CHR 0x0A))"

definition at_eol :: "string \<Rightarrow> bool" where
  "at_eol s = (case s of [] \<Rightarrow> True | c # cs \<Rightarrow> c = CHR 0x0A)"

function (sequential) mt ::
  "bool \<Rightarrow> instr list \<Rightarrow> char option \<Rightarrow> string \<Rightarrow> caps \<Rightarrow> (string \<times> caps) option" where
  "mt ci [] p s c = Some (s, c)"
| "mt ci (Close n s0 # k) p s c = mt ci k p s (c(n \<mapsto> take (length s0 - length s) s0))"
| "mt ci (NonEmpty s0 # k) p s c = (if length s < length s0 then mt ci k p s c else None)"
| "mt ci (R (Atom a) # k) p [] c = None"
| "mt ci (R (Atom a) # k) p (x # xs) c =
     (if atom_ok ci a x then mt ci k (Some x) xs c else None)"
| "mt ci (R Eps # k) p s c = mt ci k p s c"
| "mt ci (R (Cat a b) # k) p s c = mt ci (R a # R b # k) p s c"
| "mt ci (R (Alt a b) # k) p s c =
     (case mt ci (R a # k) p s c of Some r \<Rightarrow> Some r | None \<Rightarrow> mt ci (R b # k) p s c)"
| "mt ci (R (Group n r) # k) p s c = mt ci (R r # Close n s # k) p s c"
| "mt ci (R Bol # k) p s c = (if at_bol p then mt ci k p s c else None)"
| "mt ci (R Eol # k) p s c = (if at_eol s then mt ci k p s c else None)"
| "mt ci (R WordB # k) p s c =
     (if word_before p \<noteq> word_after s then mt ci k p s c else None)"
| "mt ci (R (NotAhead r) # k) p s c =
     (case mt ci [R r] p s c of None \<Rightarrow> mt ci k p s c | Some r \<Rightarrow> None)"
| "mt ci (R (Rep a lo hi g) # k) p [] c = (if lo = 0 then mt ci k p [] c else None)"
| "mt ci (R (Rep a lo hi g) # k) p (x # xs) c =
     (if 0 < lo then
        (if hi \<noteq> Some 0 \<and> atom_ok ci a x
         then mt ci (R (Rep a (lo - 1) (dec hi) g) # k) (Some x) xs c else None)
      else if g then
        (case (if hi \<noteq> Some 0 \<and> atom_ok ci a x
               then mt ci (R (Rep a 0 (dec hi) g) # k) (Some x) xs c else None) of
           Some r \<Rightarrow> Some r
         | None \<Rightarrow> mt ci k p (x # xs) c)
      else
        (case mt ci k p (x # xs) c of
           Some r \<Rightarrow> Some r
         | None \<Rightarrow>
             (if hi \<noteq> Some 0 \<and> atom_ok ci a x
              then mt ci (R (Rep a 0 (dec hi) g) # k) (Some x) xs c else None)))"
  by pat_completeness auto

termination
  by (relation "measures [\<lambda>(ci, k, p, s, c). length s, \<lambda>(ci, k, p, s, c). sum_list (map isz k)]")
     auto

section \<open>Searching, iterating and splitting\<close>

text \<open>
  \<^verbatim>\<open>re.search\<close>: the first position, from the left, at which the pattern matches.
  The whole match is recorded as group 0.
\<close>

fun search :: "bool \<Rightarrow> re \<Rightarrow> char option \<Rightarrow> string \<Rightarrow> caps option" where
  "search ci r p [] = map_option snd (mt ci [R (Group 0 r)] p [] Map.empty)"
| "search ci r p (x # xs) =
     (case mt ci [R (Group 0 r)] p (x # xs) Map.empty of
        Some res \<Rightarrow> Some (snd res)
      | None \<Rightarrow> search ci r (Some x) xs)"

text \<open>
  The loop behind \<^verbatim>\<open>re.findall\<close> and \<^verbatim>\<open>re.split\<close>: successive non-overlapping
  matches, each with the text between it and the match before, and the text left after
  the last one.  \<open>skip\<close> counts the characters of the current match still to pass;
  \<open>acc\<close> is the text since the last match, reversed.  After an empty match Python
  searches again from the same position for a match that is not empty.
\<close>

fun scan ::
  "bool \<Rightarrow> re \<Rightarrow> nat \<Rightarrow> char option \<Rightarrow> string \<Rightarrow> string \<Rightarrow> (string \<times> caps) list \<times> string" where
  "scan ci r (Suc n) p (x # xs) acc = scan ci r n (Some x) xs acc"
| "scan ci r (Suc n) p [] acc = ([], rev acc)"
| "scan ci r 0 p [] acc =
     (case mt ci [R (Group 0 r)] p [] Map.empty of
        None \<Rightarrow> ([], rev acc)
      | Some res \<Rightarrow> ([(rev acc, snd res)], []))"
| "scan ci r 0 p (x # xs) acc =
     (case mt ci [R (Group 0 r)] p (x # xs) Map.empty of
        None \<Rightarrow> scan ci r 0 (Some x) xs (x # acc)
      | Some res \<Rightarrow>
          (if length (fst res) < length (x # xs)
           then apfst (Cons (rev acc, snd res))
                  (scan ci r (length xs - length (fst res)) (Some x) xs [])
           else
             (case mt ci [R (Group 0 r), NonEmpty (x # xs)] p (x # xs) Map.empty of
                None \<Rightarrow> apfst (Cons (rev acc, snd res)) (scan ci r 0 (Some x) xs [x])
              | Some res' \<Rightarrow>
                  apfst (\<lambda>ms. (rev acc, snd res) # ([], snd res') # ms)
                    (scan ci r (length xs - length (fst res')) (Some x) xs []))))"

definition group :: "caps \<Rightarrow> nat \<Rightarrow> string" where
  "group c n = (case c n of None \<Rightarrow> [] | Some g \<Rightarrow> g)"

text \<open>
  \<^verbatim>\<open>re.findall\<close> returns the whole matches of a pattern without groups, and the
  first group (empty when it took no part) of a pattern with one group.  \<open>grouped\<close>
  says which.
\<close>

definition findall :: "bool \<Rightarrow> bool \<Rightarrow> re \<Rightarrow> string \<Rightarrow> string list" where
  "findall ci grouped r text =
     map (\<lambda>m. group (snd m) (if grouped then 1 else 0)) (fst (scan ci r 0 None text []))"

definition re_split :: "bool \<Rightarrow> re \<Rightarrow> string \<Rightarrow> string list" where
  "re_split ci r text = (let res = scan ci r 0 None text [] in map fst (fst res) @ [snd res])"

section \<open>String methods\<close>

definition strip_chars :: "(char \<Rightarrow> bool) \<Rightarrow> string \<Rightarrow> string" where
  "strip_chars P s = rev (dropWhile P (rev (dropWhile P s)))"

definition strip :: "string \<Rightarrow> string" where
  "strip s = strip_chars is_space s"

fun split_on :: "char \<Rightarrow> string \<Rightarrow> string \<Rightarrow> string list" where
  "split_on d [] acc = [rev acc]"
| "split_on d (x # xs) acc =
     (if x = d then rev acc # split_on d xs [] else split_on d xs (x # acc))"

definition split_comma :: "string \<Rightarrow> string list" where
  "split_comma s = split_on CHR '','' s []"

definition join :: "string \<Rightarrow> string list \<Rightarrow> string" where
  "join sep xs = (case xs of [] \<Rightarrow> [] | y # ys \<Rightarrow> y @ concat (map (\<lambda>z. sep @ z) ys))"

text \<open>\<^verbatim>\<open>re.sub(pattern, repl, s)\<close> for a replacement without group references.\<close>

definition re_sub :: "bool \<Rightarrow> re \<Rightarrow> string \<Rightarrow> string \<Rightarrow> string" where
  "re_sub ci r repl text = join repl (re_split ci r text)"

section \<open>Numbers and dates\<close>

datatype error = AttributeError | ValueError

definition bind :: "error + 'a \<Rightarrow> ('a \<Rightarrow> error + 'b) \<Rightarrow> error + 'b" where
  "bind m f = (case m of Inl e \<Rightarrow> Inl e | Inr v \<Rightarrow> f v)"

definition digit_val :: "char \<Rightarrow> nat" where
  "digit_val c = code c - 48"

definition digits_val :: "string \<Rightarrow> nat" where
  "digits_val s = foldl (\<lambda>n c. 10 * n + digit_val c) 0 s"

text \<open>
  \<^verbatim>\<open>int(s)\<close>: surrounding whitespace, an optional sign, then decimal digits, single
  underscores allowed between digits; anything else raises \<^verbatim>\<open>ValueError\<close>
  (\<open>None\<close>).
\<close>

fun int_body :: "bool \<Rightarrow> string \<Rightarrow> bool" where
  "int_body prev [] = prev"
| "int_body prev (x # xs) =
     (if is_digit x then int_body True xs
      else if x = CHR ''_'' \<and> prev then int_body False xs
      else False)"

definition unsigned_int :: "string \<Rightarrow> int option" where
  "unsigned_int s =
     (if int_body False s then Some (int (digits_val (filter is_digit s))) else None)"

definition py_int :: "string \<Rightarrow> int option" where
  "py_int s =
     (case strip s of
        [] \<Rightarrow> None
      | x # xs \<Rightarrow>
          if x = CHR ''-'' then map_option uminus (unsigned_int xs)
          else if x = CHR ''+'' then unsigned_int xs
          else unsigned_int (x # xs))"

record date =
  year :: int
  month :: int
  day :: int

definition is_leap :: "int \<Rightarrow> bool" where
  "is_leap y = (y mod 4 = 0 \<and> (y mod 100 \<noteq> 0 \<or> y mod 400 = 0))"

definition days_in_month :: "int \<Rightarrow> int \<Rightarrow> int" where
  "days_in_month y m =
     (if m = 2 then (if is_leap y then 29 else 28)
      else if m = 4 \<or> m = 6 \<or> m = 9 \<or> m = 11 then 30 else 31)"

text \<open>The constructor \<^verbatim>\<open>datetime.date(y, m, d)\<close>, which raises \<^verbatim>\<open>ValueError\<close> on a
  date that does not exist.\<close>

definition mk_date :: "int \<Rightarrow> int \<Rightarrow> int \<Rightarrow> date option" where
  "mk_date y m d =
     (if 1 \<le> y \<and> y \<le> 9999 \<and> 1 \<le> m \<and> m \<le> 12 \<and> 1 \<le> d \<and> d \<le> days_in_month y m
      then Some \<lparr>year = y, month = m, day = d\<rparr> else None)"

definition month_names :: "string list" where
  "month_names = [''January'', ''February'', ''March'', ''April'', ''May'', ''June'',
     ''July'', ''August'', ''September'', ''October'', ''November'', ''December'']"

definition sp :: atom where "sp = In [S]"
definition dg :: atom where "dg = In [D]"

text \<open>
  \<^verbatim>\<open>datetime.strptime\<close> turns the format into a pattern, matches it at the start of the
  string without regard to case, and refuses a string with characters left over.  The
  directives: \<^verbatim>\<open>%Y\<close> is four digits (group 1 here), \<^verbatim>\<open>%m\<close> is
  \<^verbatim>\<open>1[0-2]|0[1-9]|[1-9]\<close> (group 2), \<^verbatim>\<open>%d\<close> is
  \<^verbatim>\<open>3[0-1]|[1-2]\d|0[1-9]|[1-9]| [1-9]\<close> (group 3), \<^verbatim>\<open>%B\<close> is the full month names,
  longest first (group 4); white space in the format is \<^verbatim>\<open>\s+\<close>.
\<close>

definition dir_Y :: re where
  "dir_Y = Group 1 (Rep dg 4 (Some 4) True)"

definition dir_m :: re where
  "dir_m = Group 2 (alts [Cat (Atom (Lit CHR ''1'')) (Atom (In [Rg CHR ''0'' CHR ''2''])),
                          Cat (Atom (Lit CHR ''0'')) (Atom (In [Rg CHR ''1'' CHR ''9''])),
                          Atom (In [Rg CHR ''1'' CHR ''9''])])"

definition dir_d :: re where
  "dir_d = Group 3 (alts [Cat (Atom (Lit CHR ''3'')) (Atom (In [Rg CHR ''0'' CHR ''1''])),
                          Cat (Atom (In [Rg CHR ''1'' CHR ''2''])) (Atom dg),
                          Cat (Atom (Lit CHR ''0'')) (Atom (In [Rg CHR ''1'' CHR ''9''])),
                          Atom (In [Rg CHR ''1'' CHR ''9'']),
                          Cat (Atom (Lit CHR '' '')) (Atom (In [Rg CHR ''1'' CHR ''9'']))])"

definition dir_B :: re where
  "dir_B = Group 4 (alts (map str [''september'', ''february'', ''november'', ''december'',
     ''january'', ''october'', ''august'', ''march'', ''april'', ''june'', ''july'', ''may'']))"

fun index_of :: "string \<Rightarrow> string list \<Rightarrow> nat \<Rightarrow> nat option" where
  "index_of x [] i = None"
| "index_of x (y # ys) i = (if x = y then Some i else index_of x ys (Suc i))"

definition month_number :: "string \<Rightarrow> int" where
  "month_number s =
     (case index_of (map lower s) (map (map lower) month_names) 1 of
        None \<Rightarrow> 0 | Some i \<Rightarrow> int i)"

definition strptime :: "re \<Rightarrow> string \<Rightarrow> date option" where
  "strptime fmt s =
     (case mt True [R fmt] None s Map.empty of
        None \<Rightarrow> None
      | Some res \<Rightarrow>
          if fst res \<noteq> [] then None
          else mk_date (int (digits_val (group (snd res) 1)))
                 (case snd res 2 of
                    Some m \<Rightarrow> int (digits_val m)
                  | None \<Rightarrow> month_number (group (snd res) 4))
                 (int (digits_val (strip (group (snd res) 3)))))"

text \<open>The three formats of the program: \<^verbatim>\<open>"%Y-%m-%d"\<close>, \<^verbatim>\<open>"%B %d, %Y"\<close> and
  \<^verbatim>\<open>"%d %B %Y"\<close>.\<close>

definition fmt_ymd :: re where
  "fmt_ymd = cats [dir_Y, Atom (Lit CHR ''-''), dir_m, Atom (Lit CHR ''-''), dir_d]"

definition fmt_Bdy :: re where
  "fmt_Bdy = cats [dir_B, plus sp, dir_d, Atom (Lit CHR '',''), plus sp, dir_Y]"

definition fmt_dBy :: re where
  "fmt_dBy = cats [dir_d, plus sp, dir_B, plus sp, dir_Y]"

section \<open>The extractor\<close>

text \<open>Every search of the extractor runs under \<^verbatim>\<open>re.I|re.M\<close>.  \<^verbatim>\<open>m.group(1)\<close> is
  \<^verbatim>\<open>None\<close> when the group took no part in the match, and \<^verbatim>\<open>None.strip()\<close> raises.\<close>

definition extract_first :: "re \<Rightarrow> string \<Rightarrow> error + string option" where
  "extract_first pat text =
     (case search True pat None text of
        None \<Rightarrow> Inr None
      | Some c \<Rightarrow> (case c 1 of None \<Rightarrow> Inl AttributeError | Some g \<Rightarrow> Inr (Some (strip g))))"

definition extract_all :: "bool \<Rightarrow> re \<Rightarrow> string \<Rightarrow> string list" where
  "extract_all grouped pat text = map strip (findall True grouped pat text)"

text \<open>Python's truth value of an optional string and of an optional integer.\<close>

definition truthy :: "string option \<Rightarrow> bool" where
  "truthy v = (case v of None \<Rightarrow> False | Some s \<Rightarrow> s \<noteq> [])"

definition truthy_int :: "int option \<Rightarrow> bool" where
  "truthy_int v = (case v of None \<Rightarrow> False | Some n \<Rightarrow> n \<noteq> 0)"

definition punct :: "char \<Rightarrow> bool" where
  "punct c = (c \<in> set '' .;:'')"

definition and_pat :: re where
  "and_pat = Alt (Atom (Lit CHR '','')) (cats [WordB, str ''and'', WordB])"

definition clean_commas_list :: "string \<Rightarrow> string list" where
  "clean_commas_list s =
     map (strip_chars punct)
       (filter (\<lambda>p. p \<noteq> [] \<and> strip_chars punct p \<noteq> []) (re_split False and_pat s))"

subsection \<open>Birth date\<close>

definition iso_pat :: re where
  "iso_pat = cats [str ''Born:'', star sp, Atom (Lit CHR ''(''), star sp,
     Group 1 (cats [Rep dg 4 (Some 4) True, Atom (Lit CHR ''-''), Rep dg 2 (Some 2) True,
                    Atom (Lit CHR ''-''), Rep dg 2 (Some 2) True]),
     star sp, Atom (Lit CHR '')'')]"

text \<open>
  The source splices \<^verbatim>\<open>MONTHS\<close>, the names joined by \<^verbatim>\<open>|\<close>, into
  \<^verbatim>\<open>({MONTHS}\s+\d{1,2},\s+\d{4})\<close> without a group of its own: the alternation takes
  in the whole group, and only its last branch has the day and the year.
\<close>

definition mdyyyy_pat :: re where
  "mdyyyy_pat = Group 1 (alts (map str (butlast month_names) @
     [cats [str (last month_names), plus sp, Rep dg 1 (Some 2) True, Atom (Lit CHR '',''),
            plus sp, Rep dg 4 (Some 4) True]]))"

definition dmyyyy_pat :: re where
  "dmyyyy_pat = Group 1 (cats [Rep dg 1 (Some 2) True, plus sp, alts (map str month_names),
     plus sp, Rep dg 4 (Some 4) True])"

definition try_strptime :: "re \<Rightarrow> string option \<Rightarrow> date option" where
  "try_strptime fmt v = (if truthy v then strptime fmt (the v) else None)"

definition parse_birthdate :: "string \<Rightarrow> error + date option" where
  "parse_birthdate text =
     bind (extract_first iso_pat text) (\<lambda>iso.
       case try_strptime fmt_ymd iso of
         Some d \<Rightarrow> Inr (Some d)
       | None \<Rightarrow>
           bind (extract_first mdyyyy_pat text) (\<lambda>mdyyyy.
             case try_strptime fmt_Bdy mdyyyy of
               Some d \<Rightarrow> Inr (Some d)
             | None \<Rightarrow>
                 bind (extract_first dmyyyy_pat text) (\<lambda>dmyyyy.
                   case try_strptime fmt_dBy dmyyyy of
                     Some d \<Rightarrow> Inr (Some d)
                   | None \<Rightarrow> Inr None)))"

subsection \<open>Age\<close>

definition age_pat :: re where
  "age_pat = cats [str ''(age'', star sp,
     Group 1 (Rep (In [Rg CHR ''0'' CHR ''9'']) 1 (Some 3) True), Atom (Lit CHR '')'')]"

text \<open>\<open>today\<close> is \<^verbatim>\<open>date.today()\<close>.  The comparison of the pairs is
  lexicographic, and the truth value counts as 1.\<close>

definition years_between :: "date \<Rightarrow> date \<Rightarrow> int" where
  "years_between today birth =
     year today - year birth -
       (if month today < month birth \<or> (month today = month birth \<and> day today < day birth)
        then 1 else 0)"

definition parse_age :: "date \<Rightarrow> string \<Rightarrow> date option \<Rightarrow> error + int option" where
  "parse_age today text birth =
     bind (extract_first age_pat text) (\<lambda>age_explicit.
       case (if truthy age_explicit then py_int (the age_explicit) else None) of
         Some n \<Rightarrow> Inr (Some n)
       | None \<Rightarrow>
           (case birth of
              Some b \<Rightarrow> Inr (Some (years_between today b))
            | None \<Rightarrow> Inr None))"

subsection \<open>Degrees and education\<close>

definition dash :: atom where "dash = Lit CHR ''-''"

definition edu_lines_pat :: re where
  "edu_lines_pat = cats [Bol, star sp, Atom dash, star sp,
     lazy_opt (alts [str ''Revin'', str ''He'', str ''She'']), lazy_star Dot,
     Group 1 (alts [str ''graduated'', str ''post-graduate'', str ''qualified as'']),
     lazy_star Dot, Eol]"

definition edu_section_pat :: re where
  "edu_section_pat =
     Alt (cats [Bol, star sp, Atom dash, star sp, str ''Revin'', lazy_star Dot,
                str ''qualified'', lazy_star Dot, Eol])
         (cats [Bol, star sp, Atom dash, star sp, lazy_star Dot, str ''post-graduate'',
                lazy_star Dot, Eol])"

definition inst_set :: atom where
  "inst_set = In [Rg CHR ''A'' CHR ''Z'', Rg CHR ''a'' CHR ''z'', Rg CHR ''0'' CHR ''9'',
     C CHR '' '', C CHR ''.'', C CHR ''-'', C CHR ''('', C CHR '')'', C CHR 0x27]"

definition inst_from_pat :: re where
  "inst_from_pat = cats [str ''from the '',
     Group 1 (Cat (Atom (In [Rg CHR ''A'' CHR ''Z''])) (plus inst_set))]"

definition inst_at_pat :: re where
  "inst_at_pat = cats [str ''at the '',
     Group 1 (Cat (Atom (In [Rg CHR ''A'' CHR ''Z''])) (plus inst_set))]"

definition year_pat :: re where
  "year_pat = cats [Alt (str ''in'') (Atom (Lit CHR '','')), star sp,
     Group 1 (Rep dg 4 (Some 4) True), NotAhead (Atom dg)]"

definition qual_pat :: re where
  "qual_pat = cats [str ''qualified as '',
     opt (cats [Atom (Lit CHR ''a''), Rep (Lit CHR ''n'') 0 (Some 1) True, Atom (Lit CHR '' '')]),
     Group 1 (lazy_plus (In [Rg CHR ''A'' CHR ''Z'', Rg CHR ''a'' CHR ''z'', C CHR '' '',
                              C CHR ''-''])),
     alts [Atom (Lit CHR ''.''), Atom (Lit CHR '',''), Eol]]"

definition explicit_pat :: re where
  "explicit_pat = Group 1 (cats [str ''Candidate of '',
     plus (In [Rg CHR ''A'' CHR ''Z'', Rg CHR ''a'' CHR ''z'', C CHR '' '']),
     str '' ('', Rep dg 4 (Some 4) True, Atom (Lit CHR '')'')])"

record entry =
  institution :: "string option"
  year_of :: "int option"
  qualification :: "string option"

text \<open>
  \<^verbatim>\<open>list(set(...))\<close>: the order in which Python walks a set of strings is not fixed
  by the language (it follows the hashes of the strings, which change from one process
  to the next).  \<open>set_order\<close> is that order: it is given the distinct candidate lines
  and returns them as the loop will see them.
\<close>

definition candidate_lines :: "(string list \<Rightarrow> string list) \<Rightarrow> string \<Rightarrow> string list" where
  "candidate_lines set_order text =
     set_order (remdups (extract_all True edu_lines_pat text @
                         extract_all False edu_section_pat text))"

text \<open>The three searches on one candidate line, and \<^verbatim>\<open>int(year)\<close>.\<close>

definition line_fields ::
  "string \<Rightarrow> error + (string option \<times> string option \<times> string option)" where
  "line_fields line =
     bind (extract_first inst_from_pat line) (\<lambda>inst0.
     bind (if \<not> truthy inst0 then extract_first inst_at_pat line else Inr inst0) (\<lambda>inst.
     bind (extract_first year_pat line) (\<lambda>yr.
     bind (extract_first qual_pat line) (\<lambda>qual.
       Inr (inst, yr, qual)))))"

definition year_int :: "string option \<Rightarrow> error + int option" where
  "year_int yr =
     (if truthy yr
      then (case py_int (the yr) of None \<Rightarrow> Inl ValueError | Some n \<Rightarrow> Inr (Some n))
      else Inr None)"

definition any_values :: "entry \<Rightarrow> bool" where
  "any_values e = (truthy (institution e) \<or> truthy_int (year_of e) \<or> truthy (qualification e))"

definition degree_string :: "string \<Rightarrow> string option \<Rightarrow> string option \<Rightarrow> string" where
  "degree_string qual inst yr =
     (if truthy inst \<and> truthy yr then qual @ '' ('' @ the inst @ '', '' @ the yr @ '')''
      else if truthy inst then qual @ '' ('' @ the inst @ '')''
      else if truthy yr then qual @ '' ('' @ the yr @ '')''
      else qual)"

text \<open>The body of the loop over the candidate lines: the entry of the line, when it is
  kept, and its degree string, when it has one.\<close>

definition parse_line :: "string \<Rightarrow> error + (entry list \<times> string list)" where
  "parse_line line =
     bind (line_fields line) (\<lambda>(inst, yr, qual).
     bind (year_int yr) (\<lambda>y.
       let e = \<lparr>institution = inst, year_of = y, qualification = qual\<rparr>
       in Inr (if any_values e then [e] else [],
               if truthy qual then [degree_string (the qual) inst yr] else [])))"

fun parse_lines :: "string list \<Rightarrow> entry list \<Rightarrow> string list \<Rightarrow> error + (entry list \<times> string list)" where
  "parse_lines [] education degrees = Inr (education, degrees)"
| "parse_lines (line # rest) education degrees =
     bind (parse_line line) (\<lambda>(es, ds). parse_lines rest (education @ es) (degrees @ ds))"

definition norm :: "string \<Rightarrow> string" where
  "norm s = strip (re_sub False (plus sp) '' '' s)"

fun dedup :: "string list \<Rightarrow> string set \<Rightarrow> string list \<Rightarrow> string list" where
  "dedup [] seen acc = acc"
| "dedup (d # ds) seen acc =
     (if d \<notin> seen then dedup ds (insert d seen) (acc @ [d]) else dedup ds seen acc)"

definition not_all_none :: "entry \<Rightarrow> bool" where
  "not_all_none e = (institution e \<noteq> None \<or> year_of e \<noteq> None \<or> qualification e \<noteq> None)"

definition parse_degrees_and_education ::
  "(string list \<Rightarrow> string list) \<Rightarrow> string \<Rightarrow> error + (string list \<times> entry list)" where
  "parse_degrees_and_education set_order text =
     bind (parse_lines (candidate_lines set_order text) [] []) (\<lambda>(education, degrees).
       let explicit_degrees = extract_all True explicit_pat text;
           degrees = map norm (degrees @ explicit_degrees)
       in Inr (dedup degrees {} [], filter not_all_none education))"

subsection \<open>The profile\<close>

definition occ_pat :: re where
  "occ_pat = cats [Bol, plus dash, star sp, str ''Occupation(s):'', star sp,
     Group 1 (plus (NotIn [C (CHR 0x0A)])), Eol]"

definition nationality_pat :: re where
  "nationality_pat = cats [Bol, plus dash, star sp, str ''Nationality:'', star sp,
     Group 1 (plus (In [Rg CHR ''A'' CHR ''Z'', Rg CHR ''a'' CHR ''z'', C CHR '' '',
                        C CHR ''-''])), Eol]"

definition time_pat :: re where
  "time_pat = cats [Bol, plus dash, star sp, str ''Time in space:'', star sp,
     Group 1 (plus (NotIn [C (CHR 0x0A)])), Eol]"

definition enjoys_pat :: re where
  "enjoys_pat = cats [WordB, str ''enjoys'', plus sp,
     Group 1 (plus (NotIn [C CHR ''.'', C (CHR 0x0A)]))]"

record result =
  degrees :: "string list"
  education :: "entry list"
  occupations :: "string list"
  time_in_space :: "string option"
  interests :: "string list"
  nationality :: "string option"
  age :: "int option"

definition occupations_of :: "string option \<Rightarrow> string list" where
  "occupations_of occ_line =
     (if truthy occ_line
      then filter (\<lambda>w. w \<noteq> []) (map strip (split_comma (the occ_line)))
      else [])"

definition interests_of :: "string option \<Rightarrow> string list" where
  "interests_of enjoys = (if truthy enjoys then clean_commas_list (the enjoys) else [])"

text \<open>\<open>today\<close> and \<open>set_order\<close> are what the function takes from its surroundings:
  the date of the run and the order of the set of candidate lines.\<close>

definition parse_astronaut_profile ::
  "date \<Rightarrow> (string list \<Rightarrow> string list) \<Rightarrow> string \<Rightarrow> error + result" where
  "parse_astronaut_profile today set_order text =
     bind (extract_first occ_pat text) (\<lambda>occ_line.
     bind (extract_first nationality_pat text) (\<lambda>nation.
     bind (extract_first time_pat text) (\<lambda>tis.
     bind (extract_first enjoys_pat text) (\<lambda>enjoys.
     bind (parse_degrees_and_education set_order text) (\<lambda>(degs, edu).
     bind (parse_birthdate text) (\<lambda>birth.
     bind (parse_age today text birth) (\<lambda>a.
       Inr \<lparr>degrees = degs, education = edu, occupations = occupations_of occ_line,
            time_in_space = tis, interests = interests_of enjoys, nationality = nation,
            age = a\<rparr>)))))))"

section \<open>Notions used in the proofs\<close>

fun sets_group :: "nat \<Rightarrow> re \<Rightarrow> bool" where
  "sets_group n (Group m r) = (m = n \<or> sets_group n r)"
| "sets_group n (Cat a b) = (sets_group n a \<or> sets_group n b)"
| "sets_group n (Alt a b) = (sets_group n a \<and> sets_group n b)"
| "sets_group n r = False"

fun instr_sets :: "nat \<Rightarrow> instr \<Rightarrow> bool" where
  "instr_sets n (R r) = sets_group n r"
| "instr_sets n (Close m s0) = (m = n)"
| "instr_sets n (NonEmpty s0) = False"

definition prev_of :: "char option \<Rightarrow> string \<Rightarrow> char option" where
  "prev_of p pre = (if pre = [] then p else Some (last pre))"

fun mentions :: "nat \<Rightarrow> re \<Rightarrow> bool" where
  "mentions n (Group m r) = (m = n \<or> mentions n r)"
| "mentions n (Cat a b) = (mentions n a \<or> mentions n b)"
| "mentions n (Alt a b) = (mentions n a \<or> mentions n b)"
| "mentions n (NotAhead r) = mentions n r"
| "mentions n r = False"

fun instr_mentions :: "nat \<Rightarrow> instr \<Rightarrow> bool" where
  "instr_mentions n (R r) = mentions n r"
| "instr_mentions n (Close m s0) = (m = n)"
| "instr_mentions n (NonEmpty s0) = False"

text \<open>\<open>within lo hi n\<close>: the count \<open>n\<close> of a repetition lies in its bounds.\<close>

definition within :: "nat \<Rightarrow> nat option \<Rightarrow> nat \<Rightarrow> bool" where
  "within lo hi n = (lo \<le> n \<and> (case hi of None \<Rightarrow> True | Some h \<Rightarrow> n \<le> h))"

fun plain :: "re \<Rightarrow> bool" where
  "plain (Group n r) = False"
| "plain (Cat a b) = (plain a \<and> plain b)"
| "plain (Alt a b) = (plain a \<and> plain b)"
| "plain r = True"

text \<open>The stripped first group of the first match, \<open>None\<close> without a match: what
  \<open>extract_first\<close> returns when group 1 takes part in every match.\<close>

definition first_group :: "re \<Rightarrow> string \<Rightarrow> string option" where
  "first_group pat text =
     (case search True pat None text of None \<Rightarrow> None | Some c \<Rightarrow> Some (strip (group c 1)))"





definition two_lines :: string where
  "two_lines = ''- Revin qualified as a pilot.
- post-graduate study, qualified as an engineer.''"










section \<open>Properties of the matcher\<close>

lemma mt_sets_group:
  "mt ci k p s c = Some res \<Longrightarrow> c n \<noteq> None \<or> list_ex (instr_sets n) k \<Longrightarrow> snd res n \<noteq> None"
proof (induction ci k p s c arbitrary: res rule: mt.induct)
  case (8 ci a b k p s c)
  then show ?case by (auto split: option.splits)
next
  case (13 ci r k p s c)
  then show ?case by (auto split: option.splits)
next
  case (15 ci a lo hi g k p x xs c)
  then show ?case by (auto split: option.splits if_splits)
qed (auto split: if_splits)

lemma prev_of_Nil [simp]: "prev_of p [] = p"
  by (simp add: prev_of_def)

lemma prev_of_Cons [simp]: "prev_of p (x # pre) = prev_of (Some x) pre"
  by (simp add: prev_of_def)

lemma search_Nil:
  "search ci r p [] = Some c \<Longrightarrow> \<exists>s''. mt ci [R (Group 0 r)] p [] Map.empty = Some (s'', c)"
  by (cases "mt ci [R (Group 0 r)] p [] Map.empty") (auto simp del: mt.simps)

lemma search_Cons_None:
  "mt ci [R (Group 0 r)] p (x # xs) Map.empty = None \<Longrightarrow>
   search ci r p (x # xs) = search ci r (Some x) xs"
  by (simp del: mt.simps)

lemma search_Cons_Some:
  "mt ci [R (Group 0 r)] p (x # xs) Map.empty = Some res \<Longrightarrow>
   search ci r p (x # xs) = Some (snd res)"
  by (simp del: mt.simps)

lemma search_mt:
  "search ci r p s = Some c \<Longrightarrow>
   \<exists>pre s' s''. s = pre @ s' \<and> mt ci [R (Group 0 r)] (prev_of p pre) s' Map.empty = Some (s'', c)"
proof (induction s arbitrary: p)
  case Nil
  from search_Nil[OF Nil] obtain s'' where
    "mt ci [R (Group 0 r)] p [] Map.empty = Some (s'', c)" by (elim exE)
  then have "[] = [] @ [] \<and> mt ci [R (Group 0 r)] (prev_of p []) [] Map.empty = Some (s'', c)"
    by (simp only: prev_of_Nil append_Nil simp_thms)
  then show ?case by (intro exI)
next
  case (Cons x xs)
  show ?case
  proof (cases "mt ci [R (Group 0 r)] p (x # xs) Map.empty")
    case None
    from Cons.prems search_Cons_None[OF None]
    have "search ci r (Some x) xs = Some c" by (simp only:)
    from Cons.IH[OF this] obtain pre s' s'' where
      h: "xs = pre @ s'" "mt ci [R (Group 0 r)] (prev_of (Some x) pre) s' Map.empty = Some (s'', c)"
      by (elim exE conjE)
    then have "x # xs = (x # pre) @ s' \<and>
        mt ci [R (Group 0 r)] (prev_of p (x # pre)) s' Map.empty = Some (s'', c)"
      by (simp only: prev_of_Cons append_Cons simp_thms)
    then show ?thesis by (intro exI)
  next
    case (Some res)
    from Cons.prems search_Cons_Some[OF Some] have "snd res = c" by (simp only: option.inject)
    with Some have "mt ci [R (Group 0 r)] p (x # xs) Map.empty = Some (fst res, c)"
      by (cases res) (simp del: mt.simps)
    then have "x # xs = [] @ (x # xs) \<and>
        mt ci [R (Group 0 r)] (prev_of p []) (x # xs) Map.empty = Some (fst res, c)"
      by (simp only: prev_of_Nil append_Nil simp_thms)
    then show ?thesis by (intro exI)
  qed
qed

lemma search_sets_group:
  assumes "search ci r p s = Some c" and "sets_group n r"
  shows "c n \<noteq> None"
proof -
  obtain pre s' s'' where "mt ci [R (Group 0 r)] (prev_of p pre) s' Map.empty = Some (s'', c)"
    using search_mt[OF assms(1)] by blast
  from mt_sets_group[OF this, of n] assms(2) show ?thesis by simp
qed

lemma extract_first_total:
  "sets_group 1 pat \<Longrightarrow> \<exists>v. extract_first pat text = Inr v"
  by (auto simp: extract_first_def split: option.splits dest: search_sets_group)

lemma mt_keeps_group:
  "mt ci k p s c = Some res \<Longrightarrow> \<not> list_ex (instr_mentions n) k \<Longrightarrow> snd res n = c n"
proof (induction ci k p s c arbitrary: res rule: mt.induct)
  case (8 ci a b k p s c)
  then show ?case by (auto split: option.splits)
next
  case (13 ci r k p s c)
  then show ?case by (auto split: option.splits)
next
  case (15 ci a lo hi g k p x xs c)
  then show ?case by (auto split: option.splits if_splits)
qed (auto split: if_splits)

text \<open>A successful repetition consumed a run of characters of its class.\<close>

lemma mt_Rep_run:
  "mt ci (R (Rep a lo hi g) # k) p s c = Some res \<Longrightarrow>
   \<exists>xs s1. s = xs @ s1 \<and> list_all (atom_ok ci a) xs \<and> within lo hi (length xs) \<and>
     mt ci k (prev_of p xs) s1 c = Some res"
proof (induction s arbitrary: lo hi p)
  case Nil
  then have "lo = 0" "mt ci k p [] c = Some res" by (auto split: if_splits)
  then have "[] = [] @ [] \<and> list_all (atom_ok ci a) [] \<and> within lo hi (length ([]::string)) \<and>
     mt ci k (prev_of p []) [] c = Some res"
    by (simp add: within_def split: option.splits)
  then show ?case by (intro exI)
next
  case (Cons x xs)
  let ?more = "hi \<noteq> Some 0 \<and> atom_ok ci a x \<and>
     mt ci (R (Rep a (lo - 1) (dec hi) g) # k) (Some x) xs c = Some res"
  let ?stop = "lo = 0 \<and> mt ci k p (x # xs) c = Some res"
  from Cons.prems have "?more \<or> ?stop"
    by (auto split: if_splits option.splits)
  then show ?case
  proof
    assume m: ?more
    from m have "mt ci (R (Rep a (lo - 1) (dec hi) g) # k) (Some x) xs c = Some res"
      by (simp only:)
    from Cons.IH[OF this] obtain ys s1 where
      h: "xs = ys @ s1" "list_all (atom_ok ci a) ys" "within (lo - 1) (dec hi) (length ys)"
         "mt ci k (prev_of (Some x) ys) s1 c = Some res"
      by (elim exE conjE)
    from m h(3) have "within lo hi (length (x # ys))"
      by (auto simp: within_def dec_def split: option.splits)
    with h m have "x # xs = (x # ys) @ s1 \<and> list_all (atom_ok ci a) (x # ys) \<and>
        within lo hi (length (x # ys)) \<and> mt ci k (prev_of p (x # ys)) s1 c = Some res"
      by simp
    then show ?thesis by (intro exI)
  next
    assume s: ?stop
    then have "x # xs = [] @ (x # xs) \<and> list_all (atom_ok ci a) [] \<and>
        within lo hi (length ([]::string)) \<and> mt ci k (prev_of p []) (x # xs) c = Some res"
      by (simp add: within_def split: option.splits)
    then show ?thesis by (intro exI)
  qed
qed

lemma prev_of_append: "prev_of (prev_of p xs) ys = prev_of p (xs @ ys)"
  by (simp add: prev_of_def)

lemma mt_plain:
  "plain r \<Longrightarrow> mt ci (R r # k) p s c = Some res \<Longrightarrow>
   \<exists>xs s'. s = xs @ s' \<and> mt ci k (prev_of p xs) s' c = Some res"
proof (induction r arbitrary: k p s)
  case (Atom a)
  then obtain x xs where s: "s = x # xs" and m: "mt ci k (Some x) xs c = Some res"
    by (cases s) (auto split: if_splits)
  then have "s = [x] @ xs \<and> mt ci k (prev_of p [x]) xs c = Some res" by simp
  then show ?case by (intro exI)
next
  case (Cat a b)
  from Cat.prems have pa: "plain a" and pb: "plain b"
    and m: "mt ci (R a # R b # k) p s c = Some res" by simp_all
  from Cat.IH(1)[OF pa m] obtain xs s1 where
    h1: "s = xs @ s1" "mt ci (R b # k) (prev_of p xs) s1 c = Some res" by (elim exE conjE)
  from Cat.IH(2)[OF pb h1(2)] obtain ys s2 where
    h2: "s1 = ys @ s2" "mt ci k (prev_of (prev_of p xs) ys) s2 c = Some res" by (elim exE conjE)
  from h1 h2 have "s = (xs @ ys) @ s2 \<and> mt ci k (prev_of p (xs @ ys)) s2 c = Some res"
    by (simp add: prev_of_append)
  then show ?case by (intro exI)
next
  case (Alt a b)
  from Alt.prems have "mt ci (R a # k) p s c = Some res \<or> mt ci (R b # k) p s c = Some res"
    by (auto split: option.splits)
  then show ?case
  proof
    assume "mt ci (R a # k) p s c = Some res"
    with Alt.IH(1) Alt.prems(1) show ?thesis by simp
  next
    assume "mt ci (R b # k) p s c = Some res"
    with Alt.IH(2) Alt.prems(1) show ?thesis by simp
  qed
next
  case (Rep a lo hi g)
  from mt_Rep_run[OF Rep.prems(2)] obtain xs s1 where
    "s = xs @ s1 \<and> mt ci k (prev_of p xs) s1 c = Some res" by (elim exE conjE) simp
  then show ?case by (intro exI)
next
  case (Group n r)
  then show ?case by simp
next
  case Eps
  then have "s = [] @ s \<and> mt ci k (prev_of p []) s c = Some res" by simp
  then show ?case by (intro exI)
next
  case Bol
  then have "s = [] @ s \<and> mt ci k (prev_of p []) s c = Some res" by (simp split: if_splits)
  then show ?case by (intro exI)
next
  case Eol
  then have "s = [] @ s \<and> mt ci k (prev_of p []) s c = Some res" by (simp split: if_splits)
  then show ?case by (intro exI)
next
  case WordB
  then have "s = [] @ s \<and> mt ci k (prev_of p []) s c = Some res" by (simp split: if_splits)
  then show ?case by (intro exI)
next
  case (NotAhead r)
  from NotAhead.prems have "s = [] @ s \<and> mt ci k (prev_of p []) s c = Some res"
    by (simp split: option.splits)
  then show ?case by (intro exI)
qed

lemma mt_Group_Rep:
  assumes "mt ci (R (Group n (Rep a lo hi g)) # k) p s c = Some res"
    and "\<not> list_ex (instr_mentions n) k"
  shows "\<exists>xs. list_all (atom_ok ci a) xs \<and> within lo hi (length xs) \<and> snd res n = Some xs"
proof -
  from assms(1) have "mt ci (R (Rep a lo hi g) # Close n s # k) p s c = Some res" by simp
  from mt_Rep_run[OF this] obtain xs s1 where
    h: "s = xs @ s1" "list_all (atom_ok ci a) xs" "within lo hi (length xs)"
       "mt ci (Close n s # k) (prev_of p xs) s1 c = Some res" by (elim exE conjE)
  from h(1) h(4) have "mt ci k (prev_of p xs) s1 (c(n \<mapsto> xs)) = Some res" by simp
  from mt_keeps_group[OF this assms(2)] have "snd res n = Some xs" by simp
  with h show ?thesis by (intro exI conjI)
qed

lemma code_set_bit5_True: "in_range 65 90 x \<Longrightarrow> code (set_bit5 True x) = code x + 32"
  by (cases x) (auto simp: in_range_def code_def of_bool_def split: if_splits)

lemma code_set_bit5_False: "in_range 97 122 x \<Longrightarrow> code (set_bit5 False x) + 32 = code x"
  by (cases x) (auto simp: in_range_def code_def of_bool_def split: if_splits)

lemma is_digit_lower: "is_digit (lower x) = is_digit x"
  using code_set_bit5_True[of x] by (auto simp: is_digit_def lower_def in_range_def)

lemma is_digit_upper: "is_digit (upper x) = is_digit x"
  using code_set_bit5_False[of x] by (auto simp: is_digit_def upper_def in_range_def)

lemma atom_ok_dg [simp]: "atom_ok ci dg x = is_digit x"
  by (simp add: dg_def)

lemma atom_ok_sp [simp]: "atom_ok ci sp x = is_space x"
  by (simp add: sp_def)

lemma code_0: "code CHR ''0'' = 48" and code_9: "code CHR ''9'' = 57"
  by (simp_all add: code_def)

lemma atom_ok_09 [simp]: "atom_ok ci (In [Rg CHR ''0'' CHR ''9'']) x = is_digit x"
  using is_digit_lower[of x] is_digit_upper[of x]
  by (auto simp: code_0 code_9 is_digit_def)

lemma digit_not_space: "is_digit x \<Longrightarrow> \<not> is_space x"
  by (auto simp: is_digit_def is_space_def in_range_def)

lemma strip_chars_id:
  "s \<noteq> [] \<Longrightarrow> \<not> P (hd s) \<Longrightarrow> \<not> P (last s) \<Longrightarrow> strip_chars P s = s"
proof -
  assume ne: "s \<noteq> []" and h: "\<not> P (hd s)" and l: "\<not> P (last s)"
  from ne h have 1: "dropWhile P s = s" by (cases s) auto
  from ne l have 2: "dropWhile P (rev s) = rev s" by (cases s rule: rev_cases) auto
  show ?thesis by (simp add: strip_chars_def 1 2)
qed

lemma strip_digits: "list_all is_digit s \<Longrightarrow> strip s = s"
proof (cases "s = []")
  case True
  then show ?thesis by (simp add: strip_def strip_chars_def)
next
  case False
  assume "list_all is_digit s"
  with False have "is_digit (hd s)" "is_digit (last s)"
    by (auto simp: list_all_iff)
  with False show ?thesis
    unfolding strip_def by (intro strip_chars_id) (auto dest: digit_not_space)
qed

lemma int_body_digits: "list_all is_digit s \<Longrightarrow> int_body b s = (b \<or> s \<noteq> [])"
  by (induction s arbitrary: b) auto

lemma digit_not_sign: "is_digit x \<Longrightarrow> x \<noteq> CHR ''-'' \<and> x \<noteq> CHR ''+''"
  by (auto simp: is_digit_def in_range_def code_def)

lemma py_int_digits:
  assumes "list_all is_digit s" and "s \<noteq> []"
  shows "py_int s = Some (int (digits_val s))"
proof -
  from assms obtain x xs where s: "s = x # xs" by (cases s) auto
  with assms have dx: "is_digit x" by simp
  have f: "filter is_digit s = s" using assms(1) by (simp add: list_all_iff)
  have "unsigned_int s = Some (int (digits_val s))"
    using assms by (simp add: unsigned_int_def int_body_digits f)
  with s dx show ?thesis
    using strip_digits[OF assms(1)] digit_not_sign[OF dx] by (simp add: py_int_def)
qed

lemma mt_Cat: "mt ci (R (Cat a b) # k) p s c = mt ci (R a # R b # k) p s c"
  by simp

lemma mt_Group: "mt ci (R (Group n r) # k) p s c = mt ci (R r # Close n s # k) p s c"
  by simp

lemma cats_Cons: "rs \<noteq> [] \<Longrightarrow> cats (r # rs) = Cat r (cats rs)"
  by (cases rs) simp_all

lemma mentions_cats: "mentions n (cats ts) = list_ex (mentions n) ts"
  by (induction ts rule: cats.induct) simp_all

text \<open>Group-free parts, then group \<open>n\<close> around one repetition, then a rest that
  does not mention group \<open>n\<close>: the group holds a run of the class.\<close>

lemma mt_cats_group_run:
  assumes "mt ci (R (cats (rs @ Group n (Rep a lo hi g) # ts)) # k) p s c = Some res"
    and "list_all plain rs" and "\<not> list_ex (mentions n) ts"
    and "\<not> list_ex (instr_mentions n) k"
  shows "\<exists>xs. list_all (atom_ok ci a) xs \<and> within lo hi (length xs) \<and> snd res n = Some xs"
  using assms
proof (induction rs arbitrary: p s)
  case Nil
  show ?case
  proof (cases "ts = []")
    case True
    with Nil.prems(1) have "mt ci (R (Group n (Rep a lo hi g)) # k) p s c = Some res"
      by (simp del: mt.simps)
    from mt_Group_Rep[OF this Nil.prems(4)] show ?thesis .
  next
    case False
    with Nil.prems(1) have
      "mt ci (R (Group n (Rep a lo hi g)) # R (cats ts) # k) p s c = Some res"
      by (simp only: append_Nil cats_Cons[OF False] mt_Cat)
    moreover from Nil.prems(3,4) have "\<not> list_ex (instr_mentions n) (R (cats ts) # k)"
      by (simp add: mentions_cats)
    ultimately show ?thesis by (rule mt_Group_Rep)
  qed
next
  case (Cons r rs)
  from Cons.prems(2) have pr: "plain r" and prs: "list_all plain rs" by simp_all
  from Cons.prems(1) have
    "mt ci (R r # R (cats (rs @ Group n (Rep a lo hi g) # ts)) # k) p s c = Some res"
    by (simp only: append_Cons cats_Cons[of "rs @ Group n (Rep a lo hi g) # ts" r, simplified] mt_Cat)
  from mt_plain[OF pr this] obtain xs s' where
    "mt ci (R (cats (rs @ Group n (Rep a lo hi g) # ts)) # k) (prev_of p xs) s' c = Some res"
    by (elim exE conjE)
  from Cons.IH[OF this prs Cons.prems(3) Cons.prems(4)] show ?case .
qed

lemma search_group_run:
  assumes "search ci (cats (rs @ Group n (Rep a lo hi g) # ts)) p s = Some c"
    and "list_all plain rs" and "\<not> list_ex (mentions n) ts" and "n \<noteq> 0"
  shows "\<exists>xs. list_all (atom_ok ci a) xs \<and> within lo hi (length xs) \<and> c n = Some xs"
proof -
  let ?r = "cats (rs @ Group n (Rep a lo hi g) # ts)"
  from search_mt[OF assms(1)] obtain pre s' s'' where
    "mt ci [R (Group 0 ?r)] (prev_of p pre) s' Map.empty = Some (s'', c)"
    by (elim exE conjE)
  then have "mt ci (R ?r # [Close 0 s']) (prev_of p pre) s' Map.empty = Some (s'', c)"
    by (simp only: mt_Group)
  moreover from assms(4) have "\<not> list_ex (instr_mentions n) [Close 0 s']" by simp
  ultimately have "\<exists>xs. list_all (atom_ok ci a) xs \<and> within lo hi (length xs) \<and>
      snd (s'', c) n = Some xs"
    using assms(2,3) by (intro mt_cats_group_run)
  then show ?thesis by simp
qed

lemma year_group:
  assumes "search True year_pat p s = Some c"
  shows "\<exists>y. c 1 = Some y \<and> list_all is_digit y \<and> length y = 4"
proof -
  from assms have "search True (cats ([Alt (str ''in'') (Atom (Lit CHR '','')), star sp] @
      Group 1 (Rep dg 4 (Some 4) True) # [NotAhead (Atom dg)])) p s = Some c"
    by (simp only: year_pat_def append.simps)
  from search_group_run[OF this] obtain y where
    "list_all (atom_ok True dg) y" "within 4 (Some 4) (length y)" "c 1 = Some y"
    by (auto simp: star_def)
  then have "c 1 = Some y \<and> list_all is_digit y \<and> length y = 4"
    by (simp add: within_def list_all_iff)
  then show ?thesis by (intro exI)
qed

lemma age_group:
  assumes "search True age_pat p s = Some c"
  shows "\<exists>y. c 1 = Some y \<and> list_all is_digit y \<and> y \<noteq> []"
proof -
  from assms have "search True (cats ([str ''(age'', star sp] @
      Group 1 (Rep (In [Rg CHR ''0'' CHR ''9'']) 1 (Some 3) True) # [Atom (Lit CHR '')'')])) p s
      = Some c"
    by (simp only: age_pat_def append.simps)
  from search_group_run[OF this] obtain y where
    "list_all (atom_ok True (In [Rg CHR ''0'' CHR ''9''])) y" "within 1 (Some 3) (length y)"
    "c 1 = Some y"
    by (auto simp: star_def simp del: atom_ok.simps)
  then have "c 1 = Some y \<and> list_all is_digit y \<and> y \<noteq> []"
    by (auto simp: within_def list_all_iff simp del: atom_ok.simps)
  then show ?thesis by (intro exI)
qed

lemma extract_first_year:
  "\<exists>v. extract_first year_pat line = Inr v \<and>
       (v = None \<or> (\<exists>y. v = Some y \<and> list_all is_digit y \<and> length y = 4))"
proof (cases "search True year_pat None line")
  case None
  then show ?thesis by (simp add: extract_first_def)
next
  case (Some c)
  from year_group[OF Some] obtain y where
    y: "c 1 = Some y" "list_all is_digit y" "length y = 4" by (elim exE conjE)
  with Some have "extract_first year_pat line = Inr (Some y)"
    by (simp add: extract_first_def strip_digits)
  with y show ?thesis by simp
qed

lemma extract_first_age:
  "\<exists>v. extract_first age_pat text = Inr v \<and>
       (v = None \<or> (\<exists>y. v = Some y \<and> list_all is_digit y \<and> y \<noteq> []))"
proof (cases "search True age_pat None text")
  case None
  then show ?thesis by (simp add: extract_first_def)
next
  case (Some c)
  from age_group[OF Some] obtain y where
    y: "c 1 = Some y" "list_all is_digit y" "y \<noteq> []" by (elim exE conjE)
  with Some have "extract_first age_pat text = Inr (Some y)"
    by (simp add: extract_first_def strip_digits)
  with y show ?thesis by simp
qed

lemma sets_group_patterns:
  "sets_group 1 iso_pat" "sets_group 1 mdyyyy_pat" "sets_group 1 dmyyyy_pat"
  "sets_group 1 inst_from_pat" "sets_group 1 inst_at_pat" "sets_group 1 qual_pat"
  "sets_group 1 occ_pat" "sets_group 1 nationality_pat" "sets_group 1 time_pat"
  "sets_group 1 enjoys_pat"
  by (simp_all add: iso_pat_def mdyyyy_pat_def dmyyyy_pat_def inst_from_pat_def inst_at_pat_def
      qual_pat_def occ_pat_def nationality_pat_def time_pat_def enjoys_pat_def)

lemma bind_Inr [simp]: "bind (Inr v) f = f v"
  by (simp add: bind_def)

lemma bind_Inl [simp]: "bind (Inl e) f = Inl e"
  by (simp add: bind_def)

lemma line_fields_total:
  "\<exists>inst yr qual. line_fields line = Inr (inst, yr, qual) \<and>
     (yr = None \<or> (\<exists>y. yr = Some y \<and> list_all is_digit y \<and> length y = 4))"
proof -
  obtain i0 where i0: "extract_first inst_from_pat line = Inr i0"
    using extract_first_total[OF sets_group_patterns(4)] by blast
  obtain i1 where i1: "extract_first inst_at_pat line = Inr i1"
    using extract_first_total[OF sets_group_patterns(5)] by blast
  obtain q where q: "extract_first qual_pat line = Inr q"
    using extract_first_total[OF sets_group_patterns(6)] by blast
  obtain yr where yr: "extract_first year_pat line = Inr yr"
    "yr = None \<or> (\<exists>y. yr = Some y \<and> list_all is_digit y \<and> length y = 4)"
    using extract_first_year[of line] by (elim exE conjE)
  have "line_fields line = Inr (if \<not> truthy i0 then i1 else i0, yr, q)"
    by (simp add: line_fields_def i0 i1 q yr(1))
  with yr(2) show ?thesis by simp
qed

lemma year_int_total:
  "yr = None \<or> (\<exists>y. yr = Some y \<and> list_all is_digit y \<and> length y = 4) \<Longrightarrow>
   \<exists>v. year_int yr = Inr v"
  by (auto simp: year_int_def truthy_def py_int_digits)

lemma parse_line_total: "\<exists>es ds. parse_line line = Inr (es, ds)"
proof -
  obtain inst yr qual where
    lf: "line_fields line = Inr (inst, yr, qual)"
    and y: "yr = None \<or> (\<exists>y. yr = Some y \<and> list_all is_digit y \<and> length y = 4)"
    using line_fields_total[of line] by (elim exE conjE)
  from year_int_total[OF y] obtain v where "year_int yr = Inr v" by (elim exE)
  with lf show ?thesis by (simp add: parse_line_def Let_def)
qed

lemma parse_lines_total: "\<exists>es ds. parse_lines ls edu0 degs = Inr (es, ds)"
proof (induction ls arbitrary: edu0 degs)
  case Nil
  show ?case by simp
next
  case (Cons l ls)
  obtain es ds where "parse_line l = Inr (es, ds)"
    using parse_line_total[of l] by (elim exE)
  with Cons.IH[of "edu0 @ es" "degs @ ds"] show ?case by simp
qed

lemma parse_degrees_and_education_total:
  "\<exists>degs edu. parse_degrees_and_education set_order text = Inr (degs, edu)"
proof -
  obtain es ds where "parse_lines (candidate_lines set_order text) [] [] = Inr (es, ds)"
    using parse_lines_total by blast
  then show ?thesis by (simp add: parse_degrees_and_education_def Let_def)
qed

lemma parse_birthdate_total: "\<exists>b. parse_birthdate text = Inr b"
proof -
  obtain a where a: "extract_first iso_pat text = Inr a"
    using extract_first_total[OF sets_group_patterns(1)] by blast
  obtain b where b: "extract_first mdyyyy_pat text = Inr b"
    using extract_first_total[OF sets_group_patterns(2)] by blast
  obtain c where c: "extract_first dmyyyy_pat text = Inr c"
    using extract_first_total[OF sets_group_patterns(3)] by blast
  show ?thesis by (simp add: parse_birthdate_def a b c split: option.splits)
qed

text \<open>What \<open>parse_age\<close> computes, by the three cases of the source.\<close>

lemma parse_age_cases:
  "parse_age today text birth =
     (case search True age_pat None text of
        Some c \<Rightarrow> Inr (Some (int (digits_val (group c 1))))
      | None \<Rightarrow> (case birth of Some b \<Rightarrow> Inr (Some (years_between today b)) | None \<Rightarrow> Inr None))"
proof (cases "search True age_pat None text")
  case None
  then show ?thesis by (simp add: parse_age_def extract_first_def truthy_def)
next
  case (Some c)
  from age_group[OF Some] obtain y where
    y: "c 1 = Some y" "list_all is_digit y" "y \<noteq> []" by (elim exE conjE)
  then show ?thesis
    by (simp add: parse_age_def extract_first_def Some truthy_def strip_digits py_int_digits group_def)
qed

lemma parse_age_total: "\<exists>a. parse_age today text birth = Inr a"
  by (simp add: parse_age_cases split: option.splits)

lemma parse_astronaut_profile_total:
  "\<exists>r. parse_astronaut_profile today set_order text = Inr r"
proof -
  obtain occ where 1: "extract_first occ_pat text = Inr occ"
    using extract_first_total[OF sets_group_patterns(7)] by blast
  obtain nation where 2: "extract_first nationality_pat text = Inr nation"
    using extract_first_total[OF sets_group_patterns(8)] by blast
  obtain tis where 3: "extract_first time_pat text = Inr tis"
    using extract_first_total[OF sets_group_patterns(9)] by blast
  obtain enj where 4: "extract_first enjoys_pat text = Inr enj"
    using extract_first_total[OF sets_group_patterns(10)] by blast
  obtain degs edu where 5: "parse_degrees_and_education set_order text = Inr (degs, edu)"
    using parse_degrees_and_education_total by blast
  obtain b where 6: "parse_birthdate text = Inr b"
    using parse_birthdate_total by blast
  obtain a where 7: "parse_age today text b = Inr a"
    using parse_age_total by blast
  show ?thesis by (simp add: parse_astronaut_profile_def 1 2 3 4 5 6 7)
qed

lemma extract_first_eq:
  assumes "sets_group 1 pat"
  shows "extract_first pat text = Inr (first_group pat text)"
proof (cases "search True pat None text")
  case None
  then show ?thesis by (simp add: extract_first_def first_group_def)
next
  case (Some c)
  from search_sets_group[OF Some assms] obtain g where "c 1 = Some g" by auto
  with Some show ?thesis by (simp add: extract_first_def first_group_def group_def)
qed

lemma profile_fields:
  "\<exists>degs edu birth a.
     parse_degrees_and_education set_order text = Inr (degs, edu) \<and>
     parse_birthdate text = Inr birth \<and>
     parse_age today text birth = Inr a \<and>
     parse_astronaut_profile today set_order text =
       Inr \<lparr>degrees = degs, education = edu,
            occupations = occupations_of (first_group occ_pat text),
            time_in_space = first_group time_pat text,
            interests = interests_of (first_group enjoys_pat text),
            nationality = first_group nationality_pat text, age = a\<rparr>"
proof -
  obtain degs edu where 5: "parse_degrees_and_education set_order text = Inr (degs, edu)"
    using parse_degrees_and_education_total by blast
  obtain b where 6: "parse_birthdate text = Inr b"
    using parse_birthdate_total by blast
  obtain a where 7: "parse_age today text b = Inr a"
    using parse_age_total by blast
  have "parse_astronaut_profile today set_order text =
       Inr \<lparr>degrees = degs, education = edu,
            occupations = occupations_of (first_group occ_pat text),
            time_in_space = first_group time_pat text,
            interests = interests_of (first_group enjoys_pat text),
            nationality = first_group nationality_pat text, age = a\<rparr>"
    by (simp add: parse_astronaut_profile_def 5 6 7
        extract_first_eq[OF sets_group_patterns(7)] extract_first_eq[OF sets_group_patterns(8)]
        extract_first_eq[OF sets_group_patterns(9)] extract_first_eq[OF sets_group_patterns(10)])
  with 5 6 7 show ?thesis by (intro exI conjI)
qed

lemma lower_nonletter: "\<not> in_range 65 90 c \<Longrightarrow> lower c = c"
  by (simp add: lower_def)





lemma is_space_not_digit: "is_space x \<Longrightarrow> \<not> is_digit x"
  by (auto simp: is_digit_def is_space_def in_range_def)











lemma profile_degrees_education:
  assumes "parse_astronaut_profile today set_order text = Inr r"
  shows "parse_degrees_and_education set_order text = Inr (degrees r, education r)"
proof -
  from profile_fields[of set_order "text" today] obtain degs edu b a where
    "parse_degrees_and_education set_order text = Inr (degs, edu)"
    "parse_astronaut_profile today set_order text =
       Inr \<lparr>degrees = degs, education = edu,
            occupations = occupations_of (first_group occ_pat text),
            time_in_space = first_group time_pat text,
            interests = interests_of (first_group enjoys_pat text),
            nationality = first_group nationality_pat text, age = a\<rparr>"
    by (elim exE conjE)
  with assms show ?thesis by auto
qed











lemma mt_Eol_end: "at_eol s \<Longrightarrow> mt ci [R Eol, Close n s0] p s c = Some (s, c(n \<mapsto> take (length s0 - length s) s0))"
  by simp





















section \<open>The claims\<close>

subsection \<open>No exception\<close>

text \<open>
  C3.  For every input string the extractor returns a result and never raises: the two
  places where the source can raise outside a \<^verbatim>\<open>try\<close> (\<^verbatim>\<open>m.group(1).strip()\<close> on a group
  that took no part, \<^verbatim>\<open>int(year)\<close> on a string that is no number) are never reached, whatever
  the text, the date of the run and the order of the candidate lines; the same holds for
  each sub-extraction on its own.
\<close>

theorem extract_never_raises:
  "(\<exists>r. parse_astronaut_profile today set_order text = Inr r) \<and>
   (\<exists>d. parse_degrees_and_education set_order text = Inr d) \<and>
   (\<exists>b. parse_birthdate text = Inr b) \<and>
   (\<exists>a. parse_age today text birth = Inr a)"
proof (intro conjI)
  show "\<exists>r. parse_astronaut_profile today set_order text = Inr r"
    by (rule parse_astronaut_profile_total)
  show "\<exists>d. parse_degrees_and_education set_order text = Inr d"
    using parse_degrees_and_education_total[of set_order "text"] by auto
  show "\<exists>b. parse_birthdate text = Inr b"
    by (rule parse_birthdate_total)
  show "\<exists>a. parse_age today text birth = Inr a"
    by (rule parse_age_total)
qed

theorem extract_never_raises_witness:
  "\<exists>r. parse_astronaut_profile \<lparr>year = 2025, month = 6, day = 1\<rparr> id
         ''- Revin qualified as an engineer in 1989, at the Moscow Institute'' = Inr r"
  using extract_never_raises[of "\<lparr>year = 2025, month = 6, day = 1\<rparr>" id
      "''- Revin qualified as an engineer in 1989, at the Moscow Institute''"]
  by (rule conjunct1)

subsection \<open>Candidate lines\<close>

lemma graduated_candidates:
  "candidate_lines id ''- He graduated from the Academy in 1985.'' = [''graduated'']"
  by code_simp

lemma graduated_parse_line: "parse_line ''graduated'' = Inr ([], [])"
  by code_simp

lemma graduated_explicit:
  "extract_all True explicit_pat ''- He graduated from the Academy in 1985.'' = []"
  by code_simp

lemma graduated_line_fields:
  "line_fields ''- He graduated from the Academy in 1985.'' =
     Inr (Some ''Academy in 1985.'', Some ''1985'', None)"
  by code_simp

text \<open>
  C1.  The claim: every bullet line containing \<^verbatim>\<open>graduated\<close>, \<^verbatim>\<open>post-graduate\<close> or
  \<^verbatim>\<open>qualified as\<close> is a candidate line, and it has an education entry if and only if an
  institution, a year or a qualification is found on it.  The code does not do this: the
  first scan has one group, so \<^verbatim>\<open>re.findall\<close> returns the trigger phrase and not the line.
  For the line below the only candidate is the word \<^verbatim>\<open>graduated\<close>, nothing is found on it and
  the education list is empty, although the line itself has an institution and a year.
\<close>

theorem graduated_line_yields_no_entry:
  "candidate_lines id ''- He graduated from the Academy in 1985.'' = [''graduated''] \<and>
   parse_degrees_and_education id ''- He graduated from the Academy in 1985.'' = Inr ([], []) \<and>
   line_fields ''- He graduated from the Academy in 1985.'' =
     Inr (Some ''Academy in 1985.'', Some ''1985'', None)"
  by (simp add: parse_degrees_and_education_def graduated_candidates graduated_parse_line
      graduated_explicit graduated_line_fields)

subsection \<open>Birth date\<close>

lemma january_first_group:
  "extract_first mdyyyy_pat ''January 12, 1966'' = Inr (Some ''January'')"
  by code_simp

lemma january_birthdate: "parse_birthdate ''January 12, 1966'' = Inr None"
  by code_simp

lemma december_birthdate:
  "parse_birthdate ''December 12, 1966'' = Inr (Some \<lparr>year = 1966, month = 12, day = 12\<rparr>)"
  by code_simp

text \<open>
  C4.  The claim: the birth date is tried as an ISO date in parentheses after
  \<^verbatim>\<open>Born:\<close>, then as \<^verbatim>\<open>Month D, YYYY\<close>, then as \<^verbatim>\<open>D Month YYYY\<close>.  The second pattern of the
  code is \<^verbatim>\<open>(January|...|December\s+\d{1,2},\s+\d{4})\<close>: for every month but December it
  matches the bare name of the month, which \<^verbatim>\<open>strptime\<close> refuses.  The docstring of the
  function lists \<^verbatim>\<open>January 12, 1966\<close> as accepted; the code returns no date for it.
\<close>

theorem month_day_year_only_december:
  "extract_first mdyyyy_pat ''January 12, 1966'' = Inr (Some ''January'') \<and>
   parse_birthdate ''January 12, 1966'' = Inr None \<and>
   parse_birthdate ''December 12, 1966'' = Inr (Some \<lparr>year = 1966, month = 12, day = 12\<rparr>)"
  by (simp only: january_first_group january_birthdate december_birthdate simp_thms)

subsection \<open>Age\<close>




subsection \<open>Degree strings\<close>



lemma parse_line_trigger: "parse_line ''qualified as'' = Inr ([], [])"
  by code_simp


lemma line_fields_pilot2:
  "line_fields ''- Revin qualified as a pilot.'' = Inr (None, None, Some ''pilot'')"
  by code_simp

lemma norm_pilot: "norm ''pilot'' = ''pilot''"
  by code_simp

lemma year_int_None: "year_int None = Inr None"
  by (simp add: year_int_def truthy_def)


lemma parse_line_pilot2:
  "parse_line ''- Revin qualified as a pilot.'' =
     Inr ([\<lparr>institution = None, year_of = None, qualification = Some ''pilot''\<rparr>], [''pilot''])"
  by (simp add: parse_line_def line_fields_pilot2 year_int_None any_values_def truthy_def
      truthy_int_def degree_string_def)





subsection \<open>Two runs\<close>

lemma two_lines_found:
  "extract_all True edu_lines_pat two_lines @ extract_all False edu_section_pat two_lines =
     [''qualified as'', ''post-graduate'', ''- Revin qualified as a pilot.'',
      ''- post-graduate study, qualified as an engineer.'']"
  unfolding two_lines_def by code_simp

lemma two_lines_explicit: "extract_all True explicit_pat two_lines = []"
  unfolding two_lines_def by code_simp

lemma two_lines_pl2: "parse_line ''post-graduate'' = Inr ([], [])"
  by code_simp
lemma two_lines_pl4: "parse_line ''- post-graduate study, qualified as an engineer.'' =
  Inr ([\<lparr>institution = None, year_of = None, qualification = Some ''engineer''\<rparr>], [''engineer''])" by code_simp
lemma norm_engineer: "norm ''engineer'' = ''engineer''"
  by code_simp

lemma two_id: "parse_degrees_and_education id two_lines = Inr ([''pilot'', ''engineer''],
   [\<lparr>institution = None, year_of = None, qualification = Some ''pilot''\<rparr>,
    \<lparr>institution = None, year_of = None, qualification = Some ''engineer''\<rparr>])"
  by (simp add: parse_degrees_and_education_def candidate_lines_def two_lines_found two_lines_explicit
     parse_line_trigger two_lines_pl2 parse_line_pilot2 two_lines_pl4 norm_pilot norm_engineer not_all_none_def)

lemma two_rev: "parse_degrees_and_education rev two_lines = Inr ([''engineer'', ''pilot''],
   [\<lparr>institution = None, year_of = None, qualification = Some ''engineer''\<rparr>,
    \<lparr>institution = None, year_of = None, qualification = Some ''pilot''\<rparr>])"
  by (simp add: parse_degrees_and_education_def candidate_lines_def two_lines_found two_lines_explicit
     parse_line_trigger two_lines_pl2 parse_line_pilot2 two_lines_pl4 norm_pilot norm_engineer not_all_none_def)

text \<open>
  C9.  The claim: with the date fixed, two runs on the same text agree on every field,
  the order of the degrees and of the education entries included.  The code walks
  \<^verbatim>\<open>list(set(...))\<close>, whose order is not fixed from one process to the next.  On the text
  below, with two candidate lines that each carry a qualification, the two orders of the
  set give the degrees and the education entries in opposite orders, so the results of the
  two runs differ.
\<close>

theorem entries_follow_set_order:
  "parse_degrees_and_education id two_lines = Inr ([''pilot'', ''engineer''],
     [\<lparr>institution = None, year_of = None, qualification = Some ''pilot''\<rparr>,
      \<lparr>institution = None, year_of = None, qualification = Some ''engineer''\<rparr>]) \<and>
   parse_degrees_and_education rev two_lines = Inr ([''engineer'', ''pilot''],
     [\<lparr>institution = None, year_of = None, qualification = Some ''engineer''\<rparr>,
      \<lparr>institution = None, year_of = None, qualification = Some ''pilot''\<rparr>]) \<and>
   parse_astronaut_profile today id two_lines \<noteq> parse_astronaut_profile today rev two_lines"
proof (intro conjI)
  show "parse_degrees_and_education id two_lines = Inr ([''pilot'', ''engineer''],
     [\<lparr>institution = None, year_of = None, qualification = Some ''pilot''\<rparr>,
      \<lparr>institution = None, year_of = None, qualification = Some ''engineer''\<rparr>])"
    by (rule two_id)
  show "parse_degrees_and_education rev two_lines = Inr ([''engineer'', ''pilot''],
     [\<lparr>institution = None, year_of = None, qualification = Some ''engineer''\<rparr>,
      \<lparr>institution = None, year_of = None, qualification = Some ''pilot''\<rparr>])"
    by (rule two_rev)
  show "parse_astronaut_profile today id two_lines \<noteq> parse_astronaut_profile today rev two_lines"
  proof
    assume eq: "parse_astronaut_profile today id two_lines = parse_astronaut_profile today rev two_lines"
    obtain r where r: "parse_astronaut_profile today id two_lines = Inr r"
      using parse_astronaut_profile_total by blast
    from profile_degrees_education[OF r] two_id have "degrees r = [''pilot'', ''engineer'']"
      by simp
    moreover from r eq have "parse_astronaut_profile today rev two_lines = Inr r" by simp
    from profile_degrees_education[OF this] two_rev have "degrees r = [''engineer'', ''pilot'']"
      by simp
    ultimately show False by simp
  qed
qed

subsection \<open>Occupations\<close>





subsection \<open>Labelled lines\<close>





subsection \<open>The shape of the result\<close>




end
